theory Spec2Isabelle
  imports Complex_Main
begin

section \<open>Task states, timestamps and text\<close>

text \<open>
  The enum \<open>TaskState\<close> of \<open>main.py\<close>. The \<open>state\<close> column of the \<open>tasks\<close> table holds
  the member's string; every write of the program passes a member of the enum.
\<close>

datatype TaskState = PENDING | APPROVED | EXPIRED

text \<open>
  A Python \<open>datetime\<close>: the reading of its date and time fields, counted in microseconds
  (\<open>wall\<close>), and its \<open>tzinfo\<close>: \<open>None\<close> for a naive value, otherwise the offset from
  UTC in microseconds, so that the UTC reading of an aware value is \<open>wall - offset\<close>.
  The range of years of Python's type (1 to 9999) is not modelled: \<open>wall\<close> is unbounded.
\<close>

record datetime =
  wall :: int
  tzinfo :: "int option"

definition timezone_utc :: int where
  "timezone_utc = 0"

text \<open>\<open>dt.astimezone(timezone.utc)\<close> of an aware \<open>dt\<close> with offset \<open>off\<close>.\<close>

definition astimezone_utc :: "datetime \<Rightarrow> int \<Rightarrow> datetime" where
  "astimezone_utc dt off = \<lparr>wall = wall dt - off, tzinfo = Some timezone_utc\<rparr>"

definition ensure_utc :: "datetime \<Rightarrow> datetime" where
  "ensure_utc dt =
     (case tzinfo dt of
        None \<Rightarrow> dt\<lparr>tzinfo := Some timezone_utc\<rparr>
      | Some off \<Rightarrow> astimezone_utc dt off)"

text \<open>
  \<open>isoformat()\<close> is only ever called on a result of \<open>ensure_utc\<close>, where it gives
  \<open>YYYY-MM-DDTHH:MM:SS[.ffffff]+00:00\<close>: fields of fixed width, most significant first,
  the same suffix on every value, and \<open>+\<close> sorting before \<open>.\<close> where the fraction is left
  out because it is zero. The text order of two such values, which is what SQLite compares in
  \<open>due_at <= ?\<close>, \<open>due_at < ?\<close> and \<open>due_at > ?\<close>, is therefore the order of their readings.
  The model keeps the reading in place of the text; \<open>fromisoformat\<close> reads it back.
\<close>

type_synonym isotext = int

definition isoformat :: "datetime \<Rightarrow> isotext" where
  "isoformat dt = wall dt"

definition fromisoformat :: "isotext \<Rightarrow> datetime" where
  "fromisoformat s = \<lparr>wall = s, tzinfo = Some timezone_utc\<rparr>"

text \<open>
  Text is \<open>string\<close>, one \<open>char\<close> for one character with a code point below 256.
  \<open>isspace\<close> is Python's \<open>str.isspace\<close> on these characters and \<open>strip\<close> is
  \<open>str.strip()\<close>: whitespace is removed at both ends.
\<close>

definition isspace :: "char \<Rightarrow> bool" where
  "isspace c = ((of_char c :: nat) \<in> {9, 10, 11, 12, 13, 28, 29, 30, 31, 32, 133, 160})"

definition strip :: "string \<Rightarrow> string" where
  "strip s = rev (dropWhile isspace (rev (dropWhile isspace s)))"

section \<open>Errors\<close>

text \<open>
  \<open>ValueError\<close> is what a pydantic validator of \<open>main.py\<close> raises; pydantic reports it as a
  \<open>ValidationError\<close> of the request. \<open>HTTPException 404\<close> is the not-found failure of
  \<open>verify_task\<close>. \<open>IntegrityError\<close> is sqlite3's failure of an \<open>INSERT\<close> whose key is
  already in the table.
\<close>

datatype error = ValueError string | ValidationError | HTTPException nat | IntegrityError

definition HTTP_404_NOT_FOUND :: nat where
  "HTTP_404_NOT_FOUND = 404"

definition NotFoundError :: error where
  "NotFoundError = HTTPException HTTP_404_NOT_FOUND"

section \<open>Request and response models\<close>

text \<open>
  The pydantic classes of \<open>main.py\<close>. Field names carry a suffix for the class, since a
  field name can belong to one record only: \<open>_req\<close> for \<open>CreateTaskRequest\<close>, \<open>_resp\<close>
  for \<open>TaskResponse\<close>, \<open>_vresp\<close> for \<open>VerifyAttemptResponse\<close>; the fields of
  \<open>VerificationAttemptRequest\<close> keep their names. The \<open>raw_features\<close> dictionary is carried
  as the text \<open>json.dumps\<close> gives for it; the store never reads it.
\<close>

record CreateTaskRequest =
  title_req :: string
  verify_method_req :: string
  due_at_iso_req :: datetime

record VerificationAttemptRequest =
  proof_url :: string
  verdict :: bool
  score :: "real option"
  reasons :: "string option"
  raw_features :: "string option"

record TaskResponse =
  id_resp :: string
  title_resp :: string
  verify_method_resp :: string
  due_at_iso_resp :: isotext
  state_resp :: TaskState

record VerifyAttemptResponse =
  task_id_vresp :: string
  state_vresp :: TaskState

text \<open>The validators of \<open>CreateTaskRequest\<close> and \<open>VerificationAttemptRequest\<close>.\<close>

definition title_not_empty :: "string \<Rightarrow> error + string" where
  "title_not_empty v =
     (if strip v = [] then Inl (ValueError ''title cannot be empty'') else Inr v)"

definition verify_not_empty :: "string \<Rightarrow> error + string" where
  "verify_not_empty v =
     (if strip v = [] then Inl (ValueError ''verify_method cannot be empty'') else Inr v)"

definition ensure_timezone :: "datetime \<Rightarrow> error + datetime" where
  "ensure_timezone v = Inr (ensure_utc v)"

definition proof_url_not_empty :: "string \<Rightarrow> error + string" where
  "proof_url_not_empty v =
     (if strip v = [] then Inl (ValueError ''proof_url cannot be empty'') else Inr v)"

text \<open>
  Building a \<open>CreateTaskRequest\<close> from the three fields of the request body: pydantic runs
  each field's validator and fails with \<open>ValidationError\<close> when one of them raised.
\<close>

definition new_CreateTaskRequest :: "string \<Rightarrow> string \<Rightarrow> datetime \<Rightarrow> error + CreateTaskRequest" where
  "new_CreateTaskRequest t vm d =
     (case (title_not_empty t, verify_not_empty vm, ensure_timezone d) of
        (Inr t', Inr vm', Inr d') \<Rightarrow>
          Inr \<lparr>title_req = t', verify_method_req = vm', due_at_iso_req = d'\<rparr>
      | _ \<Rightarrow> Inl ValidationError)"

section \<open>Storage\<close>

text \<open>
  Modelled from the spec: \<open>schema.sql\<close>, which declares the two tables, is not among the
  sources. The spec gives a table of Task rows keyed by \<open>id\<close> and a table of
  VerificationAttempt rows keyed by \<open>id\<close>, a Task row with creation and update timestamps;
  the columns are those the statements of \<open>main.py\<close> name. A row is a record, a table the
  list of its rows in insertion order, and an \<open>INSERT\<close> of a key that is already in the table
  fails with \<open>IntegrityError\<close> and writes nothing. The column \<open>id\<close> is \<open>id_t\<close> in \<open>tasks\<close>
  and \<open>id_a\<close> in \<open>verification_attempts\<close>, whose other columns carry the suffix \<open>_a\<close>.
  \<open>created_at\<close> and \<open>updated_at\<close> hold readings of SQLite's \<open>CURRENT_TIMESTAMP\<close>, a text
  that the program never compares.
\<close>

record task =
  id_t :: string
  title :: string
  verify_method :: string
  due_at :: isotext
  state :: TaskState
  created_at :: string
  updated_at :: string

record verification_attempt =
  id_a :: string
  task_id_a :: string
  proof_url_a :: string
  verdict_a :: int
  score_a :: "real option"
  reasons_a :: "string option"
  raw_features_a :: "string option"

record connection =
  tasks :: "task list"
  verification_attempts :: "verification_attempt list"

section \<open>The LIKE operator\<close>

text \<open>
  \<open>fetch_tasks\<close> filters titles with \<open>title LIKE ?\<close>, on a connection that \<open>get_db\<close> opens
  with SQLite's defaults and with no \<open>ESCAPE\<close> clause. SQLite's \<open>LIKE\<close> then works as follows:
  \<open>%\<close> in the pattern matches any run of characters, also the empty one, \<open>_\<close> matches
  exactly one character, and any other character matches itself or, for the letters of ASCII,
  its other case. \<open>like p s\<close> is \<open>s LIKE p\<close>.
\<close>

definition tolower :: "char \<Rightarrow> char" where
  "tolower c =
     (if 65 \<le> (of_char c :: nat) \<and> (of_char c :: nat) \<le> 90
      then char_of ((of_char c :: nat) + 32) else c)"

definition char_like :: "char \<Rightarrow> char \<Rightarrow> bool" where
  "char_like p c \<longleftrightarrow> p = c \<or> tolower p = tolower c"

fun like :: "string \<Rightarrow> string \<Rightarrow> bool" where
  "like [] s = (s = [])"
| "like (p # ps) [] = (p = CHR ''%'' \<and> like ps [])"
| "like (p # ps) (c # cs) =
     (if p = CHR ''%'' then like ps (c # cs) \<or> like (p # ps) cs
      else (p = CHR ''_'' \<or> char_like p c) \<and> like ps cs)"

text \<open>
  Python's \<open>q in title\<close>: \<open>q\<close> occurs in \<open>title\<close> as it is written, character for
  character. This is the literal, case-sensitive substring match of the specification, kept
  beside \<open>like\<close> for comparison.
\<close>

fun startswith :: "string \<Rightarrow> string \<Rightarrow> bool" where
  "startswith s [] = True"
| "startswith [] (q # qs) = False"
| "startswith (c # cs) (q # qs) = (c = q \<and> startswith cs qs)"

fun contains :: "string \<Rightarrow> string \<Rightarrow> bool" where
  "contains [] q = (q = [])"
| "contains (c # cs) q = (startswith (c # cs) q \<or> contains cs q)"

section \<open>Operations of the store\<close>

text \<open>
  Every function takes what it reads from its environment as leading arguments: the reading
  of \<open>datetime.utcnow()\<close> (a naive datetime), the reading of SQLite's \<open>CURRENT_TIMESTAMP\<close>,
  the string of a \<open>uuid.uuid4()\<close> draw. The connection is passed in and handed back as the
  committed content of the database.
\<close>

definition expire_overdue_tasks :: "datetime \<Rightarrow> string \<Rightarrow> connection \<Rightarrow> connection" where
  "expire_overdue_tasks utcnow CURRENT_TIMESTAMP conn =
     (let now = ensure_utc utcnow in
      conn\<lparr>tasks :=
        map (\<lambda>r. if state r = PENDING \<and> due_at r \<le> isoformat now
                 then r\<lparr>state := EXPIRED, updated_at := CURRENT_TIMESTAMP\<rparr>
                 else r)
            (tasks conn)\<rparr>)"

text \<open>
  The \<open>WHERE\<close> clause that \<open>fetch_tasks\<close> builds, one condition for each criterion that is
  supplied and true in Python's sense: a state, a datetime, a string that is not empty.
\<close>

definition query :: "TaskState option \<Rightarrow> string option \<Rightarrow> datetime option \<Rightarrow> datetime option
    \<Rightarrow> (task \<Rightarrow> bool) list" where
  "query st q due_before due_after =
     [\<lambda>r. True]
     @ (case st of Some s \<Rightarrow> [\<lambda>r. state r = s] | None \<Rightarrow> [])
     @ (case q of
          Some p \<Rightarrow> if p \<noteq> [] then [\<lambda>r. like (''%'' @ p @ ''%'') (title r)] else []
        | None \<Rightarrow> [])
     @ (case due_before of
          Some b \<Rightarrow> [\<lambda>r. due_at r < isoformat (ensure_utc b)]
        | None \<Rightarrow> [])
     @ (case due_after of
          Some a \<Rightarrow> [\<lambda>r. due_at r > isoformat (ensure_utc a)]
        | None \<Rightarrow> [])"

text \<open>
  The rows that satisfy every condition, \<open>ORDER BY due_at ASC\<close>. SQL leaves the order of
  rows with equal \<open>due_at\<close> open; the model keeps them in table order.
\<close>

definition fetch_tasks :: "connection \<Rightarrow> TaskState option \<Rightarrow> string option \<Rightarrow> datetime option
    \<Rightarrow> datetime option \<Rightarrow> task list" where
  "fetch_tasks conn st q due_before due_after =
     sort_key due_at
       (filter (\<lambda>r. list_all (\<lambda>cond. cond r) (query st q due_before due_after)) (tasks conn))"

definition create_task :: "string \<Rightarrow> string \<Rightarrow> CreateTaskRequest \<Rightarrow> connection
    \<Rightarrow> (error + TaskResponse) \<times> connection" where
  "create_task uuid4 CURRENT_TIMESTAMP payload conn =
     (let task_id = uuid4;
          due = isoformat (due_at_iso_req payload)
      in if task_id \<in> set (map id_t (tasks conn)) then (Inl IntegrityError, conn)
         else
           (Inr \<lparr>id_resp = task_id,
                 title_resp = strip (title_req payload),
                 verify_method_resp = strip (verify_method_req payload),
                 due_at_iso_resp = isoformat (ensure_utc (due_at_iso_req payload)),
                 state_resp = PENDING\<rparr>,
            conn\<lparr>tasks := tasks conn @
              [\<lparr>id_t = task_id,
                title = strip (title_req payload),
                verify_method = strip (verify_method_req payload),
                due_at = due,
                state = PENDING,
                created_at = CURRENT_TIMESTAMP,
                updated_at = CURRENT_TIMESTAMP\<rparr>]\<rparr>))"

text \<open>
  The route \<open>POST /v1/tasks\<close>: the body is validated into a \<open>CreateTaskRequest\<close> first, and
  \<open>create_task\<close> runs only on a valid one.
\<close>

definition post_tasks :: "string \<Rightarrow> string \<Rightarrow> string \<Rightarrow> string \<Rightarrow> datetime \<Rightarrow> connection
    \<Rightarrow> (error + TaskResponse) \<times> connection" where
  "post_tasks uuid4 CURRENT_TIMESTAMP t vm d conn =
     (case new_CreateTaskRequest t vm d of
        Inl e \<Rightarrow> (Inl e, conn)
      | Inr payload \<Rightarrow> create_task uuid4 CURRENT_TIMESTAMP payload conn)"

text \<open>The \<open>TaskResponse\<close> that \<open>list_tasks\<close> builds from a row.\<close>

definition row_response :: "task \<Rightarrow> TaskResponse" where
  "row_response row =
     \<lparr>id_resp = id_t row,
      title_resp = title row,
      verify_method_resp = verify_method row,
      due_at_iso_resp = isoformat (ensure_utc (fromisoformat (due_at row))),
      state_resp = state row\<rparr>"

definition list_tasks :: "datetime \<Rightarrow> string \<Rightarrow> TaskState option \<Rightarrow> string option
    \<Rightarrow> datetime option \<Rightarrow> datetime option \<Rightarrow> connection \<Rightarrow> TaskResponse list \<times> connection" where
  "list_tasks utcnow CURRENT_TIMESTAMP st q due_before due_after conn =
     (let conn1 = expire_overdue_tasks utcnow CURRENT_TIMESTAMP conn;
          rows = fetch_tasks conn1 st q due_before due_after;
          items = map row_response rows
      in (items, conn1))"

definition verify_task :: "string \<Rightarrow> string \<Rightarrow> string \<Rightarrow> VerificationAttemptRequest \<Rightarrow> connection
    \<Rightarrow> (error + VerifyAttemptResponse) \<times> connection" where
  "verify_task uuid4 CURRENT_TIMESTAMP task_id payload conn =
     (case find (\<lambda>r. id_t r = task_id) (tasks conn) of
        None \<Rightarrow> (Inl (HTTPException HTTP_404_NOT_FOUND), conn)
      | Some task \<Rightarrow>
          let attempt_id = uuid4 in
          if attempt_id \<in> set (map id_a (verification_attempts conn))
          then (Inl IntegrityError, conn)
          else
            let conn1 = conn\<lparr>verification_attempts := verification_attempts conn @
                  [\<lparr>id_a = attempt_id,
                    task_id_a = task_id,
                    proof_url_a = strip (proof_url payload),
                    verdict_a = (if verdict payload then 1 else 0),
                    score_a = score payload,
                    reasons_a = reasons payload,
                    raw_features_a = raw_features payload\<rparr>]\<rparr>;
                new_state = state task
            in if verdict payload
               then (Inr \<lparr>task_id_vresp = task_id, state_vresp = APPROVED\<rparr>,
                     conn1\<lparr>tasks :=
                       map (\<lambda>r. if id_t r = task_id
                                then r\<lparr>state := APPROVED, updated_at := CURRENT_TIMESTAMP\<rparr>
                                else r)
                           (tasks conn1)\<rparr>)
               else (Inr \<lparr>task_id_vresp = task_id, state_vresp = new_state\<rparr>, conn1))"

section \<open>Runs of the store\<close>

text \<open>
  A call of one of the three routes with everything it reads, and the database after a
  sequence of calls. A call that fails leaves the database as it was.
\<close>

datatype event =
    CreateTask string string string string datetime
  | ListTasks datetime string "TaskState option" "string option" "datetime option" "datetime option"
  | VerifyTask string string string VerificationAttemptRequest

fun apply_event :: "event \<Rightarrow> connection \<Rightarrow> connection" where
  "apply_event (CreateTask uuid4 ts t vm d) conn = snd (post_tasks uuid4 ts t vm d conn)"
| "apply_event (ListTasks utcnow ts st q due_before due_after) conn =
     snd (list_tasks utcnow ts st q due_before due_after conn)"
| "apply_event (VerifyTask uuid4 ts task_id payload) conn =
     snd (verify_task uuid4 ts task_id payload conn)"

fun run :: "event list \<Rightarrow> connection \<Rightarrow> connection" where
  "run [] conn = conn"
| "run (e # es) conn = run es (apply_event e conn)"

section \<open>The instant of a datetime\<close>

text \<open>
  The UTC instant that a datetime stands for, a naive one read as UTC: the notion the
  specification compares \<open>due_at\<close> with.
\<close>

definition utc_instant :: "datetime \<Rightarrow> int" where
  "utc_instant dt = (case tzinfo dt of None \<Rightarrow> wall dt | Some off \<Rightarrow> wall dt - off)"

section \<open>Example data\<close>

text \<open>
  Two tasks as the smoke test creates them, one due in two hours and one due an hour ago
  (readings in seconds around the moment 0, for short), an expired and an approved task,
  and verification attempts with either verdict.
\<close>

definition task_A :: task where
  "task_A = \<lparr>id_t = ''t1'', title = ''Physics practice'', verify_method = ''Upload photo'',
     due_at = 7200, state = PENDING, created_at = ''2024-01-01 00:00:00'',
     updated_at = ''2024-01-01 00:00:00''\<rparr>"

definition task_B :: task where
  "task_B = \<lparr>id_t = ''t2'', title = ''Chemistry homework'', verify_method = ''Link to doc'',
     due_at = - 3600, state = PENDING, created_at = ''2024-01-01 00:00:00'',
     updated_at = ''2024-01-01 00:00:00''\<rparr>"

definition task_C :: task where
  "task_C = \<lparr>id_t = ''t3'', title = ''Biology essay'', verify_method = ''Link to doc'',
     due_at = - 7200, state = EXPIRED, created_at = ''2023-12-31 20:00:00'',
     updated_at = ''2023-12-31 23:00:00''\<rparr>"

definition task_D :: task where
  "task_D = \<lparr>id_t = ''t4'', title = ''Maths sheet'', verify_method = ''Upload photo'',
     due_at = - 60, state = APPROVED, created_at = ''2023-12-31 20:00:00'',
     updated_at = ''2023-12-31 21:00:00''\<rparr>"

definition db0 :: connection where
  "db0 = \<lparr>tasks = [task_A, task_B, task_C, task_D], verification_attempts = []\<rparr>"

definition utcnow0 :: datetime where
  "utcnow0 = \<lparr>wall = 0, tzinfo = None\<rparr>"

definition attempt_ok :: VerificationAttemptRequest where
  "attempt_ok = \<lparr>proof_url = ''https://example.com/proof.png'', verdict = True,
     score = None, reasons = Some ''All steps verified'', raw_features = None\<rparr>"

definition attempt_rejected :: VerificationAttemptRequest where
  "attempt_rejected = \<lparr>proof_url = ''https://example.com/blank.png'', verdict = False,
     score = None, reasons = Some ''Nothing to see'', raw_features = None\<rparr>"

definition db0_swept :: connection where
  "db0_swept = \<lparr>tasks = [task_A,
      task_B\<lparr>state := EXPIRED, updated_at := ''2024-01-01 00:00:09''\<rparr>, task_C, task_D],
     verification_attempts = []\<rparr>"

section \<open>Properties of LIKE\<close>

text \<open>
  A pattern that is a concatenation matches exactly the texts that split into a part for each
  half; a pattern with neither wildcard matches exactly the texts equal to it up to the case
  of ASCII letters.
\<close>

lemma like_percent [simp]: "like ''%'' s"
  by (induction s) auto

lemma like_percent_Cons:
  "like (CHR ''%'' # ps) t \<longleftrightarrow> like ps t \<or> (\<exists>c cs. t = c # cs \<and> like (CHR ''%'' # ps) cs)"
  by (cases t) auto

lemma like_append:
  "like (p1 @ p2) t \<longleftrightarrow> (\<exists>t1 t2. t = t1 @ t2 \<and> like p1 t1 \<and> like p2 t2)"
proof (induction p1 t rule: like.induct)
  case (1 s)
  show ?case by simp
next
  case (2 p ps)
  then show ?case by simp
next
  case (3 p ps c cs)
  show ?case
  proof (cases "p = CHR ''%''")
    case True
    have ih1: "like (ps @ p2) (c # cs) \<longleftrightarrow>
        (\<exists>t1 t2. c # cs = t1 @ t2 \<and> like ps t1 \<and> like p2 t2)"
      using 3(1) True by simp
    have ih2: "like (CHR ''%'' # ps @ p2) cs \<longleftrightarrow>
        (\<exists>t1 t2. cs = t1 @ t2 \<and> like (CHR ''%'' # ps) t1 \<and> like p2 t2)"
      using 3(2) True by simp
    have lhs: "like ((p # ps) @ p2) (c # cs) \<longleftrightarrow>
        like (ps @ p2) (c # cs) \<or> like (CHR ''%'' # ps @ p2) cs"
      using True by simp
    show ?thesis
    proof
      assume "like ((p # ps) @ p2) (c # cs)"
      with lhs have "like (ps @ p2) (c # cs) \<or> like (CHR ''%'' # ps @ p2) cs" by simp
      then show "\<exists>t1 t2. c # cs = t1 @ t2 \<and> like (p # ps) t1 \<and> like p2 t2"
      proof
        assume "like (ps @ p2) (c # cs)"
        with ih1 obtain t1 t2 where "c # cs = t1 @ t2" "like ps t1" "like p2 t2" by blast
        moreover from \<open>like ps t1\<close> have "like (p # ps) t1"
          using True like_percent_Cons by blast
        ultimately show ?thesis by blast
      next
        assume "like (CHR ''%'' # ps @ p2) cs"
        with ih2 obtain t1 t2 where t: "cs = t1 @ t2" "like (CHR ''%'' # ps) t1" "like p2 t2"
          by blast
        from t(2) have "like (p # ps) (c # t1)" using True by simp
        moreover from t(1) have "c # cs = (c # t1) @ t2" by simp
        ultimately show ?thesis using t(3) by blast
      qed
    next
      assume "\<exists>t1 t2. c # cs = t1 @ t2 \<and> like (p # ps) t1 \<and> like p2 t2"
      then obtain t1 t2 where t: "c # cs = t1 @ t2" "like (p # ps) t1" "like p2 t2" by blast
      show "like ((p # ps) @ p2) (c # cs)"
      proof (cases t1)
        case Nil
        with t(2) True have "like ps []" by simp
        with t(1) t(3) Nil have "\<exists>u1 u2. c # cs = u1 @ u2 \<and> like ps u1 \<and> like p2 u2"
          by (metis append_Nil)
        with ih1 lhs show ?thesis by simp
      next
        case (Cons d ds)
        with t(1) have dc: "d = c" and cs: "cs = ds @ t2" by simp_all
        from t(2) Cons True dc have "like ps (c # ds) \<or> like (CHR ''%'' # ps) ds" by simp
        then show ?thesis
        proof
          assume "like ps (c # ds)"
          with cs t(3) have "\<exists>u1 u2. c # cs = u1 @ u2 \<and> like ps u1 \<and> like p2 u2"
            by (metis append_Cons)
          with ih1 lhs show ?thesis by simp
        next
          assume "like (CHR ''%'' # ps) ds"
          with cs t(3) ih2 have "like (CHR ''%'' # ps @ p2) cs" by blast
          with lhs show ?thesis by simp
        qed
      qed
    qed
  next
    case False
    let ?m = "p = CHR ''_'' \<or> char_like p c"
    have ih: "like (ps @ p2) cs \<longleftrightarrow> (\<exists>t1 t2. cs = t1 @ t2 \<and> like ps t1 \<and> like p2 t2)"
      using 3(3) False by simp
    have lhs: "like ((p # ps) @ p2) (c # cs) \<longleftrightarrow> ?m \<and> like (ps @ p2) cs"
      using False by simp
    show ?thesis
    proof
      assume "like ((p # ps) @ p2) (c # cs)"
      with lhs ih obtain t1 t2 where t: "?m" "cs = t1 @ t2" "like ps t1" "like p2 t2"
        by blast
      from t(1,3) False have "like (p # ps) (c # t1)" by simp
      moreover from t(2) have "c # cs = (c # t1) @ t2" by simp
      ultimately show "\<exists>t1 t2. c # cs = t1 @ t2 \<and> like (p # ps) t1 \<and> like p2 t2"
        using t(4) by blast
    next
      assume "\<exists>t1 t2. c # cs = t1 @ t2 \<and> like (p # ps) t1 \<and> like p2 t2"
      then obtain t1 t2 where t: "c # cs = t1 @ t2" "like (p # ps) t1" "like p2 t2" by blast
      from t(2) False obtain d ds where t1: "t1 = d # ds" by (cases t1) auto
      with t(1) have dc: "d = c" and cs: "cs = ds @ t2" by simp_all
      from t(2) t1 dc False have m: "?m" and l: "like ps ds" by simp_all
      from cs l t(3) ih have "like (ps @ p2) cs" by blast
      with m lhs show "like ((p # ps) @ p2) (c # cs)" by simp
    qed
  qed
qed

lemma like_contains:
  "like (''%'' @ q @ ''%'') t \<longleftrightarrow> (\<exists>pre mid suf. t = pre @ mid @ suf \<and> like q mid)"
  by (simp only: like_append like_percent) auto

lemma char_like_tolower: "char_like p c \<longleftrightarrow> tolower p = tolower c"
  by (auto simp: char_like_def)

lemma like_plain:
  "CHR ''%'' \<notin> set q \<Longrightarrow> CHR ''_'' \<notin> set q \<Longrightarrow> like q s \<longleftrightarrow> map tolower q = map tolower s"
  by (induction q s rule: like.induct) (auto simp: char_like_tolower)

lemma startswith_iff: "startswith s q \<longleftrightarrow> (\<exists>suf. s = q @ suf)"
  by (induction s q rule: startswith.induct) auto

lemma contains_iff: "contains s q \<longleftrightarrow> (\<exists>pre suf. s = pre @ q @ suf)"
proof (induction s)
  case Nil
  show ?case by auto
next
  case (Cons c cs)
  show ?case
  proof
    assume "contains (c # cs) q"
    then show "\<exists>pre suf. c # cs = pre @ q @ suf"
      using Cons startswith_iff [of "c # cs" q]
      by (metis append_Cons append_Nil contains.simps(2))
  next
    assume "\<exists>pre suf. c # cs = pre @ q @ suf"
    then obtain pre suf where e: "c # cs = pre @ q @ suf" by blast
    show "contains (c # cs) q"
    proof (cases pre)
      case Nil
      with e have "startswith (c # cs) q" by (simp add: startswith_iff)
      then show ?thesis by simp
    next
      case (Cons d ds)
      with e have "cs = ds @ q @ suf" by simp
      with Cons.IH show ?thesis by auto
    qed
  qed
qed

section \<open>Facts about the sweep and the query\<close>

lemma isoformat_ensure_utc: "isoformat (ensure_utc dt) = utc_instant dt"
  by (simp add: isoformat_def ensure_utc_def utc_instant_def astimezone_utc_def split: option.split)

lemma tasks_expire:
  "tasks (expire_overdue_tasks utcnow ts conn) =
     map (\<lambda>r. if state r = PENDING \<and> due_at r \<le> utc_instant utcnow
              then r\<lparr>state := EXPIRED, updated_at := ts\<rparr> else r) (tasks conn)"
  by (simp add: expire_overdue_tasks_def Let_def isoformat_ensure_utc)

lemma attempts_expire:
  "verification_attempts (expire_overdue_tasks utcnow ts conn) = verification_attempts conn"
  by (simp add: expire_overdue_tasks_def Let_def)

lemma set_fetch_tasks:
  "set (fetch_tasks conn st q due_before due_after) =
     {r \<in> set (tasks conn). list_all (\<lambda>cond. cond r) (query st q due_before due_after)}"
  by (simp add: fetch_tasks_def)

lemma query_iff:
  "list_all (\<lambda>cond. cond r) (query st q due_before due_after) \<longleftrightarrow>
     (\<forall>s. st = Some s \<longrightarrow> state r = s) \<and>
     (\<forall>p. q = Some p \<longrightarrow> p \<noteq> [] \<longrightarrow> like (''%'' @ p @ ''%'') (title r)) \<and>
     (\<forall>b. due_before = Some b \<longrightarrow> due_at r < utc_instant b) \<and>
     (\<forall>a. due_after = Some a \<longrightarrow> utc_instant a < due_at r)"
  by (simp add: query_def isoformat_ensure_utc split: option.split)

lemma row_response_simps:
  "id_resp (row_response r) = id_t r" "title_resp (row_response r) = title r"
  "verify_method_resp (row_response r) = verify_method r"
  "due_at_iso_resp (row_response r) = due_at r" "state_resp (row_response r) = state r"
  by (simp_all add: row_response_def isoformat_def ensure_utc_def fromisoformat_def
      astimezone_utc_def timezone_utc_def)

section \<open>The expiry sweep of a listing\<close>

text \<open>
  C1. A call of \<open>list_tasks\<close> first sweeps the table: every row is kept in its place, a row
  that is \<open>PENDING\<close> with \<open>due_at\<close> at or before the current UTC instant becomes \<open>EXPIRED\<close>
  with \<open>updated_at\<close> set to the current timestamp, every other row and every verification
  attempt is left as it was. The items returned are exactly the responses of the rows of the
  swept table that satisfy the query, so a state filter is met by the state after the sweep
  and no item is \<open>PENDING\<close> and overdue.
\<close>

theorem list_tasks_sweep_first:
  assumes "list_tasks utcnow ts st q due_before due_after conn = (items, conn')"
  shows "length (tasks conn') = length (tasks conn)
    \<and> (\<forall>i < length (tasks conn).
          tasks conn' ! i =
            (if state (tasks conn ! i) = PENDING \<and> due_at (tasks conn ! i) \<le> utc_instant utcnow
             then (tasks conn ! i)\<lparr>state := EXPIRED, updated_at := ts\<rparr>
             else tasks conn ! i))
    \<and> verification_attempts conn' = verification_attempts conn
    \<and> (\<forall>item. item \<in> set items \<longleftrightarrow>
          (\<exists>r' \<in> set (tasks conn'). item = row_response r'
             \<and> list_all (\<lambda>cond. cond r') (query st q due_before due_after)))
    \<and> (\<forall>item \<in> set items.
          (\<forall>s. st = Some s \<longrightarrow> state_resp item = s)
          \<and> \<not> (state_resp item = PENDING \<and> due_at_iso_resp item \<le> utc_instant utcnow))"
proof -
  from assms have c: "conn' = expire_overdue_tasks utcnow ts conn"
    and i: "items = map row_response (fetch_tasks conn' st q due_before due_after)"
    by (auto simp: list_tasks_def Let_def)
  have t: "tasks conn' = map (\<lambda>r. if state r = PENDING \<and> due_at r \<le> utc_instant utcnow
              then r\<lparr>state := EXPIRED, updated_at := ts\<rparr> else r) (tasks conn)"
    by (simp add: c tasks_expire)
  have 1: "length (tasks conn') = length (tasks conn)" by (simp add: t)
  have 2: "\<forall>i < length (tasks conn).
          tasks conn' ! i =
            (if state (tasks conn ! i) = PENDING \<and> due_at (tasks conn ! i) \<le> utc_instant utcnow
             then (tasks conn ! i)\<lparr>state := EXPIRED, updated_at := ts\<rparr>
             else tasks conn ! i)" by (simp add: t)
  have 3: "verification_attempts conn' = verification_attempts conn"
    by (simp add: c attempts_expire)
  have 4: "\<forall>item. item \<in> set items \<longleftrightarrow>
          (\<exists>r' \<in> set (tasks conn'). item = row_response r'
             \<and> list_all (\<lambda>cond. cond r') (query st q due_before due_after))"
    by (auto simp: i set_fetch_tasks)
  have swept: "\<forall>r' \<in> set (tasks conn'). \<not> (state r' = PENDING \<and> due_at r' \<le> utc_instant utcnow)"
    by (auto simp: t)
  have 5: "\<forall>item \<in> set items.
          (\<forall>s. st = Some s \<longrightarrow> state_resp item = s)
          \<and> \<not> (state_resp item = PENDING \<and> due_at_iso_resp item \<le> utc_instant utcnow)"
  proof
    fix item assume "item \<in> set items"
    with 4 obtain r' where r: "r' \<in> set (tasks conn')" "item = row_response r'"
      "list_all (\<lambda>cond. cond r') (query st q due_before due_after)" by blast
    from r(3) have "\<forall>s. st = Some s \<longrightarrow> state r' = s" by (simp add: query_iff)
    moreover from swept r(1) have "\<not> (state r' = PENDING \<and> due_at r' \<le> utc_instant utcnow)"
      by blast
    ultimately show "(\<forall>s. st = Some s \<longrightarrow> state_resp item = s)
          \<and> \<not> (state_resp item = PENDING \<and> due_at_iso_resp item \<le> utc_instant utcnow)"
      by (simp add: r(2) row_response_simps)
  qed
  from 1 2 3 4 5 show ?thesis by blast
qed

theorem list_tasks_sweep_first_witness:
  "list_tasks utcnow0 ''2024-01-01 00:00:09'' (Some PENDING) None None None db0
      = ([row_response task_A], db0_swept)
   \<and> state (tasks db0 ! 1) = PENDING \<and> due_at (tasks db0 ! 1) \<le> utc_instant utcnow0
   \<and> tasks db0_swept ! 1 = (tasks db0 ! 1)\<lparr>state := EXPIRED, updated_at := ''2024-01-01 00:00:09''\<rparr>
   \<and> tasks db0_swept ! 0 = tasks db0 ! 0
   \<and> state_resp (row_response task_A) = PENDING"
proof -
  have h: "list_tasks utcnow0 ''2024-01-01 00:00:09'' (Some PENDING) None None None db0
      = ([row_response task_A], db0_swept)"
    by code_simp
  note t = list_tasks_sweep_first [OF h]
  from t have rows: "\<forall>i < length (tasks db0).
          tasks db0_swept ! i =
            (if state (tasks db0 ! i) = PENDING \<and> due_at (tasks db0 ! i) \<le> utc_instant utcnow0
             then (tasks db0 ! i)\<lparr>state := EXPIRED, updated_at := ''2024-01-01 00:00:09''\<rparr>
             else tasks db0 ! i)"
    by blast
  from t have items: "\<forall>item \<in> set [row_response task_A].
          (\<forall>s. Some PENDING = Some s \<longrightarrow> state_resp item = s)
          \<and> \<not> (state_resp item = PENDING \<and> due_at_iso_resp item \<le> utc_instant utcnow0)"
    by blast
  have b: "state (tasks db0 ! 1) = PENDING" "due_at (tasks db0 ! 1) \<le> utc_instant utcnow0"
    by (simp_all add: db0_def task_B_def utcnow0_def utc_instant_def)
  have a: "\<not> due_at (tasks db0 ! 0) \<le> utc_instant utcnow0"
    by (simp add: db0_def task_A_def utcnow0_def utc_instant_def)
  have len: "0 < length (tasks db0)" "1 < length (tasks db0)" by (simp_all add: db0_def)
  from rows len(2) b have r1: "tasks db0_swept ! 1 =
      (tasks db0 ! 1)\<lparr>state := EXPIRED, updated_at := ''2024-01-01 00:00:09''\<rparr>"
    by simp
  from rows len(1) a have r0: "tasks db0_swept ! 0 = tasks db0 ! 0" by simp
  from items have i: "state_resp (row_response task_A) = PENDING" by simp
  from h b r1 r0 i show ?thesis by blast
qed

text \<open>
  C5. The sweep is idempotent. A row that is already \<open>EXPIRED\<close> is left as it is, with its
  state and its \<open>updated_at\<close>, by the sweep and so by any call of \<open>list_tasks\<close>; and a second
  sweep at the same instant changes nothing that the first one left, whatever timestamp it
  would write.
\<close>

theorem expiry_sweep_idempotent:
  "(\<forall>i < length (tasks conn). state (tasks conn ! i) = EXPIRED \<longrightarrow>
       tasks (expire_overdue_tasks utcnow ts conn) ! i = tasks conn ! i
     \<and> tasks (snd (list_tasks utcnow ts st q due_before due_after conn)) ! i = tasks conn ! i)
   \<and> expire_overdue_tasks utcnow ts' (expire_overdue_tasks utcnow ts conn)
       = expire_overdue_tasks utcnow ts conn"
proof -
  have a: "\<forall>i < length (tasks conn). state (tasks conn ! i) = EXPIRED \<longrightarrow>
       tasks (expire_overdue_tasks utcnow ts conn) ! i = tasks conn ! i
     \<and> tasks (snd (list_tasks utcnow ts st q due_before due_after conn)) ! i = tasks conn ! i"
    by (simp add: list_tasks_def Let_def tasks_expire)
  have b: "expire_overdue_tasks utcnow ts' (expire_overdue_tasks utcnow ts conn)
       = expire_overdue_tasks utcnow ts conn"
    by (simp add: expire_overdue_tasks_def Let_def)
  from a b show ?thesis by blast
qed

theorem expiry_sweep_idempotent_witness:
  "state (tasks db0_swept ! 1) = EXPIRED
   \<and> tasks (expire_overdue_tasks utcnow0 ''2024-01-01 00:00:20'' db0_swept) ! 1 = tasks db0_swept ! 1
   \<and> updated_at (tasks (snd (list_tasks utcnow0 ''2024-01-01 00:00:20'' None None None None
        db0_swept)) ! 1) = ''2024-01-01 00:00:09''
   \<and> expire_overdue_tasks utcnow0 ''2024-01-01 00:00:20''
        (expire_overdue_tasks utcnow0 ''2024-01-01 00:00:09'' db0) = db0_swept"
proof -
  have e: "state (tasks db0_swept ! 1) = EXPIRED" "1 < length (tasks db0_swept)"
    by (simp_all add: db0_swept_def)
  have s: "expire_overdue_tasks utcnow0 ''2024-01-01 00:00:09'' db0 = db0_swept"
    by code_simp
  note t = expiry_sweep_idempotent [of db0_swept utcnow0 "''2024-01-01 00:00:20''" None None
      None None "''2024-01-01 00:00:20''"]
  from t e have 1:
    "tasks (expire_overdue_tasks utcnow0 ''2024-01-01 00:00:20'' db0_swept) ! 1 = tasks db0_swept ! 1"
    "tasks (snd (list_tasks utcnow0 ''2024-01-01 00:00:20'' None None None None db0_swept)) ! 1
       = tasks db0_swept ! 1"
    by blast+
  have u: "updated_at (tasks db0_swept ! 1) = ''2024-01-01 00:00:09''"
    by (simp add: db0_swept_def)
  from expiry_sweep_idempotent [of db0 utcnow0 "''2024-01-01 00:00:09''" None None None None
      "''2024-01-01 00:00:20''"]
  have 2: "expire_overdue_tasks utcnow0 ''2024-01-01 00:00:20''
        (expire_overdue_tasks utcnow0 ''2024-01-01 00:00:09'' db0)
      = expire_overdue_tasks utcnow0 ''2024-01-01 00:00:09'' db0"
    by blast
  from e(1) 1 u 2 s show ?thesis by simp
qed

lemma find_None_ids:
  "task_id \<notin> set (map id_t rows) \<Longrightarrow> find (\<lambda>r. id_t r = task_id) rows = None"
  by (induction rows) auto

lemma find_Some_ids:
  "task_id \<in> set (map id_t rows) \<Longrightarrow>
     \<exists>r \<in> set rows. id_t r = task_id \<and> find (\<lambda>r. id_t r = task_id) rows = Some r"
  by (induction rows) auto

lemma find_distinct_ids:
  "distinct (map id_t rows) \<Longrightarrow> r \<in> set rows \<Longrightarrow> id_t r = task_id \<Longrightarrow>
     find (\<lambda>r. id_t r = task_id) rows = Some r"
proof (induction rows)
  case Nil
  then show ?case by simp
next
  case (Cons a rows)
  show ?case
  proof (cases "id_t a = task_id")
    case True
    have "r = a"
    proof (rule ccontr)
      assume "r \<noteq> a"
      with Cons.prems(2) have "r \<in> set rows" by simp
      then have "id_t r \<in> set (map id_t rows)" by simp
      with Cons.prems(1,3) True show False by simp
    qed
    with True show ?thesis by simp
  next
    case False
    with Cons.prems(2,3) have "r \<in> set rows" by auto
    with Cons.IH Cons.prems(1,3) have "find (\<lambda>r. id_t r = task_id) rows = Some r" by simp
    with False show ?thesis by simp
  qed
qed

lemma verify_task_found:
  assumes "find (\<lambda>r. id_t r = task_id) (tasks conn) = Some r"
    and "uuid4 \<notin> set (map id_a (verification_attempts conn))"
  shows "verify_task uuid4 ts task_id payload conn =
    (if verdict payload
     then (Inr \<lparr>task_id_vresp = task_id, state_vresp = APPROVED\<rparr>,
           \<lparr>tasks = map (\<lambda>r. if id_t r = task_id
                                then r\<lparr>state := APPROVED, updated_at := ts\<rparr> else r)
                         (tasks conn),
            verification_attempts = verification_attempts conn @
              [\<lparr>id_a = uuid4, task_id_a = task_id, proof_url_a = strip (proof_url payload),
                verdict_a = 1, score_a = score payload, reasons_a = reasons payload,
                raw_features_a = raw_features payload\<rparr>]\<rparr>)
     else (Inr \<lparr>task_id_vresp = task_id, state_vresp = state r\<rparr>,
           \<lparr>tasks = tasks conn,
            verification_attempts = verification_attempts conn @
              [\<lparr>id_a = uuid4, task_id_a = task_id, proof_url_a = strip (proof_url payload),
                verdict_a = 0, score_a = score payload, reasons_a = reasons payload,
                raw_features_a = raw_features payload\<rparr>]\<rparr>))"
  using assms by (simp add: verify_task_def Let_def)

end
